theory Spec2Isabelle
  imports Main
begin

section \<open>The image-generation handler (\<open>app.py\<close> in \<open>memo.md\<close>)\<close>

subsection \<open>Python values, exceptions and the operations the handler uses\<close>

text \<open>
  The values an event, a payment answer or a fal.ai response can hold. Dictionaries have
  string keys and are association lists in which the first binding of a key is the one
  \<open>dict.get\<close> and subscripting see. Floating-point numbers are not modelled.
\<close>

datatype pyval =
    PyNone
  | PyBool bool
  | PyInt int
  | PyStr string
  | PyList "pyval list"
  | PyDict "(string \<times> pyval) list"

text \<open>
  An exception is an instance of a subclass of \<open>Exception\<close>: its class name and the text
  \<open>str(e)\<close>. (\<open>SystemExit\<close> and \<open>KeyboardInterrupt\<close>, which derive from
  \<open>BaseException\<close> only, are outside the model.) The texts of the exceptions raised by
  the interpreter itself are abbreviated.
\<close>

datatype pyexn = PyExn (exn_class: string) (exn_str: string)

text \<open>\<open>obj.get(key, default)\<close>: only a dict has the method.\<close>

fun py_get :: "pyval \<Rightarrow> string \<Rightarrow> pyval \<Rightarrow> pyexn + pyval" where
  "py_get (PyDict kvs) k d = Inr (case map_of kvs k of Some v \<Rightarrow> v | None \<Rightarrow> d)"
| "py_get _ k d = Inl (PyExn ''AttributeError'' ''object has no attribute get'')"

text \<open>The numeric value of an int or a bool (\<open>True\<close> is 1); nothing else is a number.\<close>

fun py_num :: "pyval \<Rightarrow> int option" where
  "py_num (PyInt i) = Some i"
| "py_num (PyBool b) = Some (if b then 1 else 0)"
| "py_num _ = None"

text \<open>
  \<open>a < b\<close> where one side is an int literal, as in every comparison of the handler: a
  number compares by value, anything else raises \<open>TypeError\<close>.
\<close>

definition py_lt :: "pyval \<Rightarrow> pyval \<Rightarrow> pyexn + bool" where
  "py_lt a b =
     (case (py_num a, py_num b) of
        (Some x, Some y) \<Rightarrow> Inr (x < y)
      | _ \<Rightarrow> Inl (PyExn ''TypeError'' ''< not supported between these instances''))"

text \<open>
  \<open>min(a, b)\<close> keeps \<open>a\<close> unless \<open>b < a\<close>; \<open>max(a, b)\<close> keeps \<open>a\<close> unless
  \<open>b > a\<close>.
\<close>

definition py_min :: "pyval \<Rightarrow> pyval \<Rightarrow> pyexn + pyval" where
  "py_min a b = (case py_lt b a of Inl e \<Rightarrow> Inl e | Inr lt \<Rightarrow> Inr (if lt then b else a))"

definition py_max :: "pyval \<Rightarrow> pyval \<Rightarrow> pyexn + pyval" where
  "py_max a b = (case py_lt a b of Inl e \<Rightarrow> Inl e | Inr gt \<Rightarrow> Inr (if gt then b else a))"

text \<open>\<open>v != n\<close> for an int literal \<open>n\<close>.\<close>

definition py_ne_int :: "pyval \<Rightarrow> int \<Rightarrow> bool" where
  "py_ne_int v n = (py_num v \<noteq> Some n)"

text \<open>Indexing a sequence: a negative index counts from the end.\<close>

definition py_index :: "'a list \<Rightarrow> int \<Rightarrow> pyexn + 'a" where
  "py_index xs i =
     (if 0 \<le> i \<and> i < int (length xs) then Inr (xs ! nat i)
      else if i < 0 \<and> - int (length xs) \<le> i then Inr (xs ! nat (int (length xs) + i))
      else Inl (PyExn ''IndexError'' ''index out of range''))"

text \<open>\<open>obj[key]\<close>.\<close>

fun py_getitem :: "pyval \<Rightarrow> pyval \<Rightarrow> pyexn + pyval" where
  "py_getitem (PyDict kvs) (PyStr k) =
     (case map_of kvs k of Some v \<Rightarrow> Inr v | None \<Rightarrow> Inl (PyExn ''KeyError'' k))"
| "py_getitem (PyDict kvs) (PyList xs) = Inl (PyExn ''TypeError'' ''unhashable type'')"
| "py_getitem (PyDict kvs) (PyDict xs) = Inl (PyExn ''TypeError'' ''unhashable type'')"
| "py_getitem (PyDict kvs) k = Inl (PyExn ''KeyError'' ''key not found'')"
| "py_getitem (PyList xs) (PyInt i) = py_index xs i"
| "py_getitem (PyList xs) (PyBool b) = py_index xs (if b then 1 else 0)"
| "py_getitem (PyList xs) k = Inl (PyExn ''TypeError'' ''list indices must be integers'')"
| "py_getitem (PyStr s) (PyInt i) =
     (case py_index s i of Inl e \<Rightarrow> Inl e | Inr c \<Rightarrow> Inr (PyStr [c]))"
| "py_getitem (PyStr s) (PyBool b) =
     (case py_index s (if b then 1 else 0) of Inl e \<Rightarrow> Inl e | Inr c \<Rightarrow> Inr (PyStr [c]))"
| "py_getitem (PyStr s) k = Inl (PyExn ''TypeError'' ''string indices must be integers'')"
| "py_getitem v k = Inl (PyExn ''TypeError'' ''object is not subscriptable'')"

subsection \<open>The collaborators and the calls made to them\<close>

text \<open>
  \<open>payment.request\<close> and \<open>fal_client.subscribe\<close> are external: each returns a value or
  raises. The \<open>i\<close>-th submitted generation may answer differently from the others, so
  \<open>fal_subscribe\<close> also takes the index of the submission.
\<close>

record env =
  payment_request :: "pyval \<Rightarrow> pyexn + pyval"
  fal_subscribe :: "nat \<Rightarrow> pyval \<Rightarrow> pyval \<Rightarrow> pyexn + pyval"

datatype call =
    PaymentRequest pyval "pyexn + pyval"
  | FalSubscribe pyval pyval

subsection \<open>\<open>generate_single\<close> and \<open>lambda_handler\<close>\<close>

definition generate_single :: "env \<Rightarrow> nat \<Rightarrow> pyval \<Rightarrow> pyval \<Rightarrow> pyexn + pyval" where
  "generate_single ev i model_id prompt =
     (case fal_subscribe ev i model_id (PyDict [(''prompt'', prompt)]) of
        Inl e \<Rightarrow> Inl e
      | Inr res \<Rightarrow>
          (case py_getitem res (PyStr ''images'') of
             Inl e \<Rightarrow> Inl e
           | Inr images \<Rightarrow>
               (case py_getitem images (PyInt 0) of
                  Inl e \<Rightarrow> Inl e
                | Inr img \<Rightarrow> py_getitem img (PyStr ''url''))))"

text \<open>
  \<open>[f.result() for f in futures]\<close>: the results in submission order, or the exception of
  the first future that failed.
\<close>

fun future_results :: "(pyexn + pyval) list \<Rightarrow> pyexn + pyval list" where
  "future_results [] = Inr []"
| "future_results (Inl e # fs) = Inl e"
| "future_results (Inr u # fs) =
     (case future_results fs of Inl e \<Rightarrow> Inl e | Inr us \<Rightarrow> Inr (u # us))"

text \<open>Line 24: \<open>count = max(1, min(event.get('image_count', 1), 4))\<close>.\<close>

definition image_count :: "pyval \<Rightarrow> pyexn + pyval" where
  "image_count event =
     (case py_get event ''image_count'' (PyInt 1) of
        Inl e \<Rightarrow> Inl e
      | Inr requested \<Rightarrow>
          (case py_min requested (PyInt 4) of
             Inl e \<Rightarrow> Inl e
           | Inr m \<Rightarrow> py_max (PyInt 1) m))"

text \<open>
  \<open>range(count)\<close>: the submissions \<open>0 .. count - 1\<close>; \<open>count\<close> must be an int.
\<close>

fun py_range :: "pyval \<Rightarrow> pyexn + nat list" where
  "py_range (PyInt n) = Inr [0 ..< nat n]"
| "py_range (PyBool b) = Inr [0 ..< (if b then 1 else 0)]"
| "py_range _ = Inl (PyExn ''TypeError'' ''object cannot be interpreted as an integer'')"

text \<open>
  The body of the \<open>try\<close> block, with the log of the external calls it made. All
  submitted generations run to completion before the \<open>with\<close> block is left, also when one
  of them raised, so each of them is in the log.
\<close>

definition handler_try :: "env \<Rightarrow> pyval \<Rightarrow> (pyexn + pyval) \<times> call list" where
  "handler_try ev event =
     (case py_get event ''one_time_token'' PyNone of
        Inl e \<Rightarrow> (Inl e, [])
      | Inr token \<Rightarrow>
     (case py_get event ''model_name'' (PyStr ''fal-ai/flux/dev'') of
        Inl e \<Rightarrow> (Inl e, [])
      | Inr model_id \<Rightarrow>
     (case py_get event ''prompt'' PyNone of
        Inl e \<Rightarrow> (Inl e, [])
      | Inr prompt \<Rightarrow>
     (case image_count event of
        Inl e \<Rightarrow> (Inl e, [])
      | Inr count \<Rightarrow>
     (let paid = payment_request ev token; log = [PaymentRequest token paid] in
      case paid of
        Inl e \<Rightarrow> (Inl e, log)
      | Inr answer \<Rightarrow>
          if py_ne_int answer 200
          then (Inr (PyDict [(''status_code'', PyInt 402), (''image_urls'', PyList [])]), log)
          else
            (case py_range count of
               Inl e \<Rightarrow> (Inl e, log)
             | Inr submissions \<Rightarrow>
                 (let futures = map (\<lambda>i. generate_single ev i model_id prompt) submissions;
                      log' = log @ map (\<lambda>i. FalSubscribe model_id (PyDict [(''prompt'', prompt)]))
                                     submissions
                  in case future_results futures of
                       Inl e \<Rightarrow> (Inl e, log')
                     | Inr urls \<Rightarrow>
                         (Inr (PyDict [(''status_code'', PyInt 200),
                                       (''image_urls'', PyList urls)]), log'))))))))"

text \<open>
  \<open>lambda_handler\<close>: the \<open>try\<close> block, and the \<open>except Exception\<close> clause that turns
  an exception into the 500 answer. The \<open>context\<close> argument is never read.
\<close>

definition lambda_handler :: "env \<Rightarrow> pyval \<Rightarrow> pyval \<Rightarrow> pyval \<times> call list" where
  "lambda_handler ev event context =
     (case handler_try ev event of
        (Inr response, log) \<Rightarrow> (response, log)
      | (Inl e, log) \<Rightarrow>
          (PyDict [(''status_code'', PyInt 500), (''message'', PyStr (exn_str e))], log))"

section \<open>The payment relay (\<open>handlePayment\<close> in \<open>memo.md\<close>)\<close>

subsection \<open>JSON values and \<open>JSON.stringify\<close>\<close>

datatype json =
    JNull
  | JBool bool
  | JNum int
  | JStr string
  | JArr "json list"
  | JObj "(string \<times> json) list"

fun show_nat :: "nat \<Rightarrow> string" where
  "show_nat n =
     (if n < 10 then [char_of (48 + n)]
      else show_nat (n div 10) @ [char_of (48 + n mod 10)])"

declare show_nat.simps [simp del]

definition show_int :: "int \<Rightarrow> string" where
  "show_int i = (if i < 0 then CHR ''-'' # show_nat (nat (- i)) else show_nat (nat i))"

text \<open>A string literal: the double quote and the backslash are escaped.\<close>

fun escape :: "string \<Rightarrow> string" where
  "escape [] = []"
| "escape (c # cs) =
     (if c = CHR 0x22 \<or> c = CHR 0x5C then CHR 0x5C # c # escape cs else c # escape cs)"

definition quote :: "string \<Rightarrow> string" where
  "quote s = CHR 0x22 # escape s @ [CHR 0x22]"

fun commas :: "string list \<Rightarrow> string" where
  "commas [] = []"
| "commas [s] = s"
| "commas (s # ss) = s @ '','' @ commas ss"

fun JSON_stringify :: "json \<Rightarrow> string" where
  "JSON_stringify JNull = ''null''"
| "JSON_stringify (JBool b) = (if b then ''true'' else ''false'')"
| "JSON_stringify (JNum i) = show_int i"
| "JSON_stringify (JStr s) = quote s"
| "JSON_stringify (JArr vs) = ''['' @ commas (map JSON_stringify vs) @ '']''"
| "JSON_stringify (JObj kvs) =
     ''{'' @ commas (map (\<lambda>(k, v). quote k @ '':'' @ JSON_stringify v) kvs) @ ''}''"

subsection \<open>The request, the store and the gateway\<close>

text \<open>
  The parsed request body, \<open>JSON.parse(event.body)\<close>: the two fields the handler
  destructures, and every other field the client sent, which the handler never reads. A
  body that does not parse rejects before the \<open>try\<close> block and is not modelled.
\<close>

record event =
  order_id :: string
  token :: string
  other :: "(string \<times> json) list"

record response =
  statusCode :: nat
  body :: string

text \<open>
  The DynamoDB table: items keyed by \<open>order_id\<close>, each a set of attributes
  (\<open>status\<close>, \<open>amount\<close>, \<open>feature_name\<close>, ... as the memo lists them).
\<close>

type_synonym item = "string \<rightharpoonup> json"
type_synonym table = "string \<rightharpoonup> item"

text \<open>
  Modelled from the spec: \<open>checkDynamoDB\<close> is called by \<open>handlePayment\<close> and defined
  nowhere in the memo. It answers whether the order is already settled: whether the item
  exists with the status that \<open>updateDynamoDB(order_id, "Paid")\<close> writes.
\<close>

definition checkDynamoDB :: "table \<Rightarrow> string \<Rightarrow> bool" where
  "checkDynamoDB t oid =
     (case t oid of None \<Rightarrow> False | Some it \<Rightarrow> it ''status'' = Some (JStr ''Paid''))"

text \<open>
  Modelled from the spec: \<open>updateDynamoDB\<close> is called by \<open>handlePayment\<close> and defined
  nowhere in the memo. It sets the status attribute of the order's item, creating the
  item when there is none, and leaves every other attribute and item as it was.
\<close>

definition updateDynamoDB :: "table \<Rightarrow> string \<Rightarrow> string \<Rightarrow> table" where
  "updateDynamoDB t oid st =
     t(oid \<mapsto> (case t oid of None \<Rightarrow> Map.empty | Some it \<Rightarrow> it)(''status'' \<mapsto> JStr st))"

text \<open>
  Both helpers are awaited inside the \<open>try\<close> block, so each call can reject (a throttled
  or unreachable table), and the rejection lands in the \<open>catch\<close> clause. What happens
  to the table calls of one invocation is an input of the model: the read succeeds or
  rejects with an error message; the write succeeds, rejects without having been applied,
  or is applied while its answer is lost, so that the await rejects all the same.
\<close>

datatype read_fate = ReadOk | ReadFails string

datatype write_fate = WriteOk | WriteFails string | WriteLost string

record table_fate =
  on_read :: read_fate
  on_write :: write_fate

text \<open>\<open>await checkDynamoDB(order_id)\<close>: the answer, or the message of the rejection.\<close>

definition await_checkDynamoDB :: "read_fate \<Rightarrow> table \<Rightarrow> string \<Rightarrow> string + bool" where
  "await_checkDynamoDB fate t oid =
     (case fate of
        ReadFails message \<Rightarrow> Inl message
      | ReadOk \<Rightarrow> Inr (checkDynamoDB t oid))"

text \<open>
  \<open>await updateDynamoDB(order_id, status)\<close>: whether it rejected, and the table after it.
\<close>

definition await_updateDynamoDB ::
  "write_fate \<Rightarrow> table \<Rightarrow> string \<Rightarrow> string \<Rightarrow> (string + unit) \<times> table" where
  "await_updateDynamoDB fate t oid st =
     (case fate of
        WriteOk \<Rightarrow> (Inr (), updateDynamoDB t oid st)
      | WriteFails message \<Rightarrow> (Inl message, t)
      | WriteLost message \<Rightarrow> (Inl message, updateDynamoDB t oid st))"

text \<open>The arguments of \<open>stripe.charges.create\<close>.\<close>

record charge_req =
  amount :: nat
  currency :: string
  source :: string
  idempotencyKey :: string

text \<open>
  The gateway is a parameter: given a request and its own state \<open>'g\<close> it returns the
  charge object, or throws an error with a message (\<open>Inl\<close>), and moves to a new state.
\<close>

type_synonym 'g gateway = "charge_req \<Rightarrow> 'g \<Rightarrow> (string + json) \<times> 'g"

text \<open>
  What a call of \<open>handlePayment\<close> can change: the table, the gateway, and the log of the
  gateway calls issued so far.
\<close>

record 'g world =
  db :: table
  stripe :: 'g
  calls :: "charge_req list"

subsection \<open>\<open>handlePayment\<close>\<close>

definition charge_request :: "event \<Rightarrow> charge_req" where
  "charge_request ev =
     \<lparr>amount = 1000, currency = ''jpy'', source = token ev, idempotencyKey = order_id ev\<rparr>"

text \<open>
  The \<open>try\<close> block with its \<open>catch\<close> clause: every rejection, of a table call or of
  the gateway call, is answered with 500 and the error's message, and what was done before
  it stays done.
\<close>

definition handlePayment ::
  "'g gateway \<Rightarrow> table_fate \<Rightarrow> event \<Rightarrow> 'g world \<Rightarrow> response \<times> 'g world" where
  "handlePayment create fate ev w =
     (case await_checkDynamoDB (on_read fate) (db w) (order_id ev) of
        Inl message \<Rightarrow> (\<lparr>statusCode = 500, body = message\<rparr>, w)
      | Inr isPaid \<Rightarrow>
          if isPaid then (\<lparr>statusCode = 200, body = ''Already Paid''\<rparr>, w)
          else
            (case create (charge_request ev) (stripe w) of
               (Inl message, g) \<Rightarrow>
                 (\<lparr>statusCode = 500, body = message\<rparr>,
                  w\<lparr>stripe := g, calls := calls w @ [charge_request ev]\<rparr>)
             | (Inr charge, g) \<Rightarrow>
                 (case await_updateDynamoDB (on_write fate) (db w) (order_id ev) ''Paid'' of
                    (Inl message, t) \<Rightarrow>
                      (\<lparr>statusCode = 500, body = message\<rparr>,
                       w\<lparr>db := t, stripe := g, calls := calls w @ [charge_request ev]\<rparr>)
                  | (Inr done, t) \<Rightarrow>
                      (\<lparr>statusCode = 200, body = JSON_stringify charge\<rparr>,
                       w\<lparr>db := t, stripe := g, calls := calls w @ [charge_request ev]\<rparr>))))"

text \<open>
  A client that calls again and again, each call with the fate of its table calls: the
  responses in order, and the last world.
\<close>

fun handleAll ::
  "'g gateway \<Rightarrow> (table_fate \<times> event) list \<Rightarrow> 'g world \<Rightarrow> response list \<times> 'g world" where
  "handleAll create [] w = ([], w)"
| "handleAll create (req # reqs) w =
     (case handlePayment create (fst req) (snd req) w of
        (r, w') \<Rightarrow> (case handleAll create reqs w' of (rs, w'') \<Rightarrow> (r # rs, w'')))"

subsection \<open>The payment processor\<close>

text \<open>
  Modelled from the spec: the processor (Stripe) is an external service, described in the
  memo and in sections 4.2 and 6 of the spec: its charge operation accepts a
  caller-supplied deduplication token, and for a token it has seen it skips the charge and
  returns the result of the first request. It keeps that first result by token, whether a
  charge or an error, and the charges it really made. What it decides for a new token
  (approve with a charge object, or refuse with a message) is the parameter \<open>decide\<close>.
\<close>

record processor =
  outcomes :: "string \<rightharpoonup> (string + json)"
  ledger :: "charge_req list"

definition stripe_charges_create ::
  "(processor \<Rightarrow> charge_req \<Rightarrow> string + json) \<Rightarrow> processor gateway" where
  "stripe_charges_create decide req g =
     (case outcomes g (idempotencyKey req) of
        Some out \<Rightarrow> (out, g)
      | None \<Rightarrow>
          (let out = decide g req
           in (out, g\<lparr>outcomes := (outcomes g)(idempotencyKey req \<mapsto> out),
                       ledger := (case out of Inl message \<Rightarrow> ledger g
                                  | Inr charge \<Rightarrow> ledger g @ [req])\<rparr>)))"

subsection \<open>Concurrent invocations of \<open>handlePayment\<close>\<close>

text \<open>
  Each invocation runs in its own Lambda instance and shares only the table and the
  processor with the others. It is suspended at each \<open>await\<close>, so an invocation is at one
  of these points: about to check the table, about to call the processor (the check said
  unpaid), about to update the table (holding the charge), returned, or dead (a timeout
  or a crash of the Lambda instance before it returned).
\<close>

datatype pc = AtCheck | AtCharge | AtUpdate json | Returned response | Crashed

text \<open>
  The invocations so far with their requests, the shared world, and \<open>charged\<close>, a record
  kept for the proofs only: the \<open>order_id\<close> of the invocation whose call made the
  processor's ledger grow, one entry per real charge.
\<close>

record sys =
  shared :: "processor world"
  procs :: "(event \<times> pc) list"
  charged :: "string list"

text \<open>
  A schedule is a list of actions: a request arrives (a first attempt or a retry), or the
  invocation with the given index takes its next step. \<open>CheckFail\<close> is a read of the
  table that rejects. \<open>Lost\<close> is a call that reached the processor while its answer did
  not reach the Lambda; \<open>Dropped\<close> is a call that never reached the processor; in both
  the client library throws. \<open>UpdateFail\<close> is a write of the table that rejects
  unapplied, \<open>UpdateLost\<close> one that is applied while its answer is lost. \<open>Crash\<close>
  kills an invocation that has not returned.
\<close>

datatype action =
    Arrive event
  | Check nat
  | CheckFail nat string
  | Charge nat
  | Lost nat
  | Dropped nat
  | Update nat
  | UpdateFail nat string
  | UpdateLost nat string
  | Crash nat

definition set_pc :: "nat \<Rightarrow> pc \<Rightarrow> sys \<Rightarrow> sys" where
  "set_pc i p s = s\<lparr>procs := (procs s)[i := (fst (procs s ! i), p)]\<rparr>"

text \<open>The processor serves the request of \<open>ev\<close>: the answer and the system after it.\<close>

definition call_processor ::
  "(processor \<Rightarrow> charge_req \<Rightarrow> string + json) \<Rightarrow> event \<Rightarrow> sys \<Rightarrow> (string + json) \<times> sys" where
  "call_processor decide ev s =
     (case stripe_charges_create decide (charge_request ev) (stripe (shared s)) of
        (out, g) \<Rightarrow>
          (out,
           s\<lparr>shared := (shared s)\<lparr>stripe := g,
                                    calls := calls (shared s) @ [charge_request ev]\<rparr>,
             charged := (if length (ledger (stripe (shared s))) < length (ledger g)
                         then charged s @ [order_id ev] else charged s)\<rparr>))"

fun step ::
  "(processor \<Rightarrow> charge_req \<Rightarrow> string + json) \<Rightarrow> action \<Rightarrow> sys \<Rightarrow> sys option" where
  "step decide (Arrive ev) s = Some (s\<lparr>procs := procs s @ [(ev, AtCheck)]\<rparr>)"
| "step decide (Check i) s =
     (if i < length (procs s) then
        (case procs s ! i of
           (ev, AtCheck) \<Rightarrow>
             Some (set_pc i
               (if checkDynamoDB (db (shared s)) (order_id ev)
                then Returned \<lparr>statusCode = 200, body = ''Already Paid''\<rparr>
                else AtCharge) s)
         | _ \<Rightarrow> None)
      else None)"
| "step decide (CheckFail i message) s =
     (if i < length (procs s) then
        (case procs s ! i of
           (ev, AtCheck) \<Rightarrow>
             Some (set_pc i (Returned \<lparr>statusCode = 500, body = message\<rparr>) s)
         | _ \<Rightarrow> None)
      else None)"
| "step decide (Charge i) s =
     (if i < length (procs s) then
        (case procs s ! i of
           (ev, AtCharge) \<Rightarrow>
             (case call_processor decide ev s of
                (Inl message, s') \<Rightarrow>
                  Some (set_pc i (Returned \<lparr>statusCode = 500, body = message\<rparr>) s')
              | (Inr charge, s') \<Rightarrow> Some (set_pc i (AtUpdate charge) s'))
         | _ \<Rightarrow> None)
      else None)"
| "step decide (Lost i) s =
     (if i < length (procs s) then
        (case procs s ! i of
           (ev, AtCharge) \<Rightarrow>
             Some (set_pc i (Returned \<lparr>statusCode = 500, body = ''connection error''\<rparr>)
                     (snd (call_processor decide ev s)))
         | _ \<Rightarrow> None)
      else None)"
| "step decide (Dropped i) s =
     (if i < length (procs s) then
        (case procs s ! i of
           (ev, AtCharge) \<Rightarrow>
             Some (set_pc i (Returned \<lparr>statusCode = 500, body = ''connection error''\<rparr>) s)
         | _ \<Rightarrow> None)
      else None)"
| "step decide (Update i) s =
     (if i < length (procs s) then
        (case procs s ! i of
           (ev, AtUpdate charge) \<Rightarrow>
             Some (set_pc i (Returned \<lparr>statusCode = 200, body = JSON_stringify charge\<rparr>)
                     (s\<lparr>shared := (shared s)
                          \<lparr>db := updateDynamoDB (db (shared s)) (order_id ev) ''Paid''\<rparr>\<rparr>))
         | _ \<Rightarrow> None)
      else None)"
| "step decide (UpdateFail i message) s =
     (if i < length (procs s) then
        (case procs s ! i of
           (ev, AtUpdate charge) \<Rightarrow>
             Some (set_pc i (Returned \<lparr>statusCode = 500, body = message\<rparr>) s)
         | _ \<Rightarrow> None)
      else None)"
| "step decide (UpdateLost i message) s =
     (if i < length (procs s) then
        (case procs s ! i of
           (ev, AtUpdate charge) \<Rightarrow>
             Some (set_pc i (Returned \<lparr>statusCode = 500, body = message\<rparr>)
                     (s\<lparr>shared := (shared s)
                          \<lparr>db := updateDynamoDB (db (shared s)) (order_id ev) ''Paid''\<rparr>\<rparr>))
         | _ \<Rightarrow> None)
      else None)"
| "step decide (Crash i) s =
     (if i < length (procs s) then
        (case procs s ! i of
           (ev, Returned r) \<Rightarrow> None
         | (ev, Crashed) \<Rightarrow> None
         | _ \<Rightarrow> Some (set_pc i Crashed s))
      else None)"

text \<open>Running a schedule; \<open>None\<close> when it asks for a step that is not enabled.\<close>

fun run ::
  "(processor \<Rightarrow> charge_req \<Rightarrow> string + json) \<Rightarrow> action list \<Rightarrow> sys \<Rightarrow> sys option" where
  "run decide [] s = Some s"
| "run decide (a # as) s =
     (case step decide a s of None \<Rightarrow> None | Some s' \<Rightarrow> run decide as s')"

section \<open>The order store and the reconciliation scanner (sections 4.1 and 4.5 of the spec)\<close>

datatype status = PENDING | CHARGING | PAID | FAILED_RETRYABLE | FAILED_TERMINAL

text \<open>
  The order record of section 3 of the spec. (\<open>ord_id\<close> and \<open>ord_amount\<close> are its
  \<open>order_id\<close> and \<open>amount\<close>.) Times are in seconds.
\<close>

record order =
  ord_id :: string
  user_id :: string
  ord_amount :: nat
  feature_id :: string
  artifact_ref :: string
  status :: status
  created_at :: nat
  updated_at :: nat
  expires_at :: nat
  processor_receipt :: "string option"

text \<open>The store: its records; the record of an order is the first one with its id.\<close>

type_synonym store = "order list"

text \<open>
  Modelled from the spec: the memo has no code of the store. Section 4.1:
  \<open>get(order_id) -> Order | NotFound\<close>.
\<close>

definition get :: "store \<Rightarrow> string \<Rightarrow> order option" where
  "get st oid = find (\<lambda>r. ord_id r = oid) st"

text \<open>
  Modelled from the spec: the memo has no code of the store. Section 4.1:
  \<open>createIfAbsent\<close> "atomically inserts a PENDING record only if none exists; returns the
  existing record unchanged if one already exists (no overwrite)". It is one step on the
  store; \<open>now\<close> is the time of the call and \<open>ttl\<close> the configured lifetime of a record.
\<close>

definition createIfAbsent ::
  "nat \<Rightarrow> nat \<Rightarrow> string \<Rightarrow> string \<Rightarrow> nat \<Rightarrow> string \<Rightarrow> string \<Rightarrow> store \<Rightarrow> order \<times> store" where
  "createIfAbsent now ttl oid uid amt fid aref st =
     (case get st oid of
        Some r \<Rightarrow> (r, st)
      | None \<Rightarrow>
          (let r = \<lparr>ord_id = oid, user_id = uid, ord_amount = amt, feature_id = fid,
                    artifact_ref = aref, status = PENDING, created_at = now,
                    updated_at = now, expires_at = now + ttl, processor_receipt = None\<rparr>
           in (r, st @ [r])))"

text \<open>
  Modelled from the spec: the memo has no code of the scanner. Section 4.5: a record is at
  risk when its status is \<open>PENDING\<close> or \<open>CHARGING\<close> and its \<open>updated_at\<close> is older than
  the abandonment threshold; a scan emits the records at risk as a report and hands the
  store back.
\<close>

definition at_risk :: "nat \<Rightarrow> nat \<Rightarrow> order \<Rightarrow> bool" where
  "at_risk threshold now r =
     ((status r = PENDING \<or> status r = CHARGING) \<and> updated_at r + threshold < now)"

fun scan_records :: "nat \<Rightarrow> nat \<Rightarrow> order list \<Rightarrow> order list" where
  "scan_records threshold now [] = []"
| "scan_records threshold now (r # rs) =
     (if at_risk threshold now r then r # scan_records threshold now rs
      else scan_records threshold now rs)"

definition scan :: "nat \<Rightarrow> nat \<Rightarrow> store \<Rightarrow> order list \<times> store" where
  "scan threshold now st = (scan_records threshold now st, st)"

section \<open>Concrete collaborators and requests\<close>

text \<open>
  The mocks of \<open>test_app.py\<close>: a payment that answers 200 and a generation that
  returns one image; a payment that answers 402; a payment and a generation that raise.
\<close>

definition fake_env :: env where
  "fake_env =
     \<lparr>payment_request = (\<lambda>t. Inr (PyInt 200)),
      fal_subscribe = (\<lambda>i m a.
        Inr (PyDict [(''images'', PyList [PyDict [(''url'', PyStr ''http://fake.jpg'')]])]))\<rparr>"

definition refusing_env :: env where
  "refusing_env = fake_env\<lparr>payment_request := (\<lambda>t. Inr (PyInt 402))\<rparr>"

definition timeout_env :: env where
  "timeout_env =
     fake_env\<lparr>payment_request := (\<lambda>t. Inl (PyExn ''Exception'' ''Connection Timeout''))\<rparr>"

definition broken_fal_env :: env where
  "broken_fal_env =
     fake_env\<lparr>fal_subscribe := (\<lambda>i m a. Inl (PyExn ''Exception'' ''fal.ai unavailable''))\<rparr>"

definition seven_images :: pyval where
  "seven_images = PyDict [(''one_time_token'', PyStr ''tok_123''), (''image_count'', PyInt 7)]"

definition no_count :: pyval where
  "no_count = PyDict [(''one_time_token'', PyStr ''tok_123''), (''prompt'', PyStr ''test'')]"

definition bad_token :: pyval where
  "bad_token = PyDict [(''one_time_token'', PyStr ''bad_token'')]"

text \<open>A processor that approves every new request, and one that refuses every one.\<close>

definition receipt :: json where
  "receipt = JObj [(''id'', JStr ''ch_1''), (''amount'', JNum 1000), (''paid'', JBool True)]"

definition approving :: "processor \<Rightarrow> charge_req \<Rightarrow> string + json" where
  "approving g req =
     Inr (JObj [(''id'', JStr ''ch_1''), (''amount'', JNum (int (amount req))),
                (''paid'', JBool True)])"

definition declining :: "processor \<Rightarrow> charge_req \<Rightarrow> string + json" where
  "declining g req = Inl ''Your card was declined.''"

text \<open>Table calls that succeed, and a table whose reads reject.\<close>

definition reliable :: table_fate where
  "reliable = \<lparr>on_read = ReadOk, on_write = WriteOk\<rparr>"

definition unreadable :: table_fate where
  "unreadable = \<lparr>on_read = ReadFails ''ProvisionedThroughputExceededException'',
                 on_write = WriteOk\<rparr>"

text \<open>An empty table in front of a processor that has seen nothing.\<close>

definition fresh :: "processor world" where
  "fresh = \<lparr>db = Map.empty, stripe = \<lparr>outcomes = Map.empty, ledger = []\<rparr>, calls = []\<rparr>"

definition pay_o3 :: event where
  "pay_o3 = \<lparr>order_id = ''o3'', token = ''tok_visa'', other = []\<rparr>"

text \<open>
  Order \<open>o4\<close> was created for feature A at 500; the request for it claims feature B
  at 100.
\<close>

definition pending_o4 :: table where
  "pending_o4 =
     [''o4'' \<mapsto> [''status'' \<mapsto> JStr ''PENDING'', ''amount'' \<mapsto> JNum 500,
                 ''feature_name'' \<mapsto> JStr ''A'']]"

definition paid_o4 :: table where
  "paid_o4 =
     [''o4'' \<mapsto> [''status'' \<mapsto> JStr ''Paid'', ''amount'' \<mapsto> JNum 500,
                 ''feature_name'' \<mapsto> JStr ''A'']]"

definition swap_o4 :: event where
  "swap_o4 = \<lparr>order_id = ''o4'', token = ''tok_visa'',
              other = [(''amount'', JNum 100), (''feature_id'', JStr ''B'')]\<rparr>"

definition terminal_o5 :: table where
  "terminal_o5 = [''o5'' \<mapsto> [''status'' \<mapsto> JStr ''FAILED_TERMINAL'']]"

definition pay_o5 :: event where
  "pay_o5 = \<lparr>order_id = ''o5'', token = ''tok_empty_card'', other = []\<rparr>"

text \<open>
  The memo's crash: the first invocation for \<open>abc-123\<close> is charged by the processor and
  dies before it updates the table; the retry has checked the table and is about to call
  the processor again.
\<close>

definition abc_123 :: event where
  "abc_123 = \<lparr>order_id = ''abc-123'', token = ''tok_visa'', other = []\<rparr>"

definition idle :: sys where
  "idle = \<lparr>shared = fresh, procs = [], charged = []\<rparr>"

definition before_reissue :: sys where
  "before_reissue =
     \<lparr>shared = \<lparr>db = Map.empty,
                stripe = \<lparr>outcomes = [''abc-123'' \<mapsto> Inr receipt],
                          ledger = [charge_request abc_123]\<rparr>,
                calls = [charge_request abc_123]\<rparr>,
      procs = [(abc_123, Crashed), (abc_123, AtCharge)],
      charged = [''abc-123'']\<rparr>"

text \<open>A first order in an empty store.\<close>

definition order_o1 :: order where
  "order_o1 =
     \<lparr>ord_id = ''o1'', user_id = ''u1'', ord_amount = 500, feature_id = ''A'',
      artifact_ref = ''art-1'', status = PENDING, created_at = 100, updated_at = 100,
      expires_at = 2592100, processor_receipt = None\<rparr>"

text \<open>
  The invariant behind the at-most-one-charge property: no order is in \<open>charged\<close>
  twice, and the processor holds an outcome for every order in it.
\<close>

definition charged_ok :: "sys \<Rightarrow> bool" where
  "charged_ok s =
     (distinct (charged s) \<and>
      (\<forall>oid \<in> set (charged s). outcomes (stripe (shared s)) oid \<noteq> None))"

section \<open>Properties of \<open>lambda_handler\<close>\<close>

lemma py_num_gt_1: "py_num c = Some x \<Longrightarrow> 1 < x \<Longrightarrow> c = PyInt x"
  by (cases c) (auto split: if_splits)

lemma image_count_cases:
  "image_count event = Inr c \<Longrightarrow> \<exists>n. c = PyInt n \<and> 1 \<le> n \<and> n \<le> 4"
  by (cases event)
     (auto simp: image_count_def py_min_def py_max_def py_lt_def dest: py_num_gt_1
           split: sum.splits option.splits if_splits)

lemma image_count_absent:
  "map_of kvs ''image_count'' = None \<Longrightarrow> image_count (PyDict kvs) = Inr (PyInt 1)"
  by (simp add: image_count_def py_min_def py_max_def py_lt_def)

lemma image_count_int:
  "map_of kvs ''image_count'' = Some (PyInt c) \<Longrightarrow>
     image_count (PyDict kvs) = Inr (PyInt (max 1 (min c 4)))"
  by (simp add: image_count_def py_min_def py_max_def py_lt_def max_def min_def)

lemma future_results_length:
  "future_results fs = Inr us \<Longrightarrow> length us = length fs"
  by (induction fs arbitrary: us rule: future_results.induct) (auto split: sum.splits)

lemma future_results_all_ok:
  "future_results (map f xs) = Inr us \<Longrightarrow> x \<in> set xs \<Longrightarrow> \<exists>u. f x = Inr u"
proof (induction xs arbitrary: us)
  case Nil
  then show ?case by simp
next
  case (Cons y ys)
  then show ?case by (cases "f y") (auto split: sum.splits)
qed

lemma generate_single_ok:
  "generate_single ev i model_id prompt = Inr u \<Longrightarrow>
     \<exists>res. fal_subscribe ev i model_id (PyDict [(''prompt'', prompt)]) = Inr res"
  by (auto simp: generate_single_def split: sum.splits)

lemma handler_200:
  assumes "lambda_handler ev event ctx = (resp, log)"
      and "py_getitem resp (PyStr ''status_code'') = Inr (PyInt 200)"
  shows "\<exists>n urls. image_count event = Inr (PyInt n) \<and> 1 \<le> n \<and> n \<le> 4 \<and>
           resp = PyDict [(''status_code'', PyInt 200), (''image_urls'', PyList urls)] \<and>
           int (length urls) = n"
  using assms
  by (auto simp: lambda_handler_def handler_try_def Let_def
           dest!: image_count_cases future_results_length
           split: sum.splits if_splits prod.splits)

lemma snd_lambda_handler: "snd (lambda_handler ev event ctx) = snd (handler_try ev event)"
  by (simp add: lambda_handler_def split: prod.splits sum.splits)

lemma handler_try_payment_logged:
  assumes "PaymentRequest tok outcome \<in> set (snd (handler_try ev event))"
  shows "py_get event ''one_time_token'' PyNone = Inr tok \<and>
         payment_request ev tok = outcome \<and>
         (\<exists>model_id prompt count.
            py_get event ''model_name'' (PyStr ''fal-ai/flux/dev'') = Inr model_id \<and>
            py_get event ''prompt'' PyNone = Inr prompt \<and> image_count event = Inr count)"
  using assms
  by (auto simp: handler_try_def Let_def split: sum.splits if_splits)

lemma handler_try_status:
  "fst (handler_try ev event) = Inr resp \<Longrightarrow>
     py_getitem resp (PyStr ''status_code'') = Inr (PyInt 200) \<or>
     py_getitem resp (PyStr ''status_code'') = Inr (PyInt 402)"
  by (auto simp: handler_try_def Let_def split: sum.splits if_splits)

lemma handler_try_fal_raises:
  assumes "FalSubscribe m a \<in> set (snd (handler_try ev event))"
      and "image_count event = Inr (PyInt n)" and "i < nat n"
      and "fal_subscribe ev i m a = Inl e"
  shows "\<exists>e'. fst (handler_try ev event) = Inl e'"
proof (cases "fst (handler_try ev event)")
  case (Inl e')
  then show ?thesis by simp
next
  case (Inr resp)
  from assms(1,2) Inr obtain tok prompt us where
    a: "a = PyDict [(''prompt'', prompt)]" and
    f: "future_results (map (\<lambda>i. generate_single ev i m prompt) [0 ..< nat n]) = Inr us"
    by (auto simp: handler_try_def Let_def split: sum.splits if_splits)
  from assms(3) have "i \<in> set [0 ..< nat n]" by simp
  from future_results_all_ok [OF f this] obtain u where "generate_single ev i m prompt = Inr u"
    by auto
  from generate_single_ok [OF this] assms(4) a show ?thesis by simp
qed

lemma upt_4: "[0..<4] = [0, 1, 2, 3]"
  by code_simp

text \<open>
  Claim C8. For every event the count of line 24 is the requested \<open>image_count\<close> clamped
  to 1..4, and 1 when the event has no \<open>image_count\<close>; whenever line 24 yields a count
  at all it is an int between 1 and 4; and whenever \<open>lambda_handler\<close> answers with
  \<open>status_code\<close> 200, \<open>image_urls\<close> has exactly that many entries. (An
  \<open>image_count\<close> that is not a number raises inside the \<open>try\<close> block, so such an
  event never gets a 200 answer.)
\<close>

theorem lambda_handler_image_count:
  "(\<forall>kvs. event = PyDict kvs \<longrightarrow> map_of kvs ''image_count'' = None \<longrightarrow>
       image_count event = Inr (PyInt 1)) \<and>
   (\<forall>kvs c. event = PyDict kvs \<longrightarrow> map_of kvs ''image_count'' = Some (PyInt c) \<longrightarrow>
       image_count event = Inr (PyInt (max 1 (min c 4)))) \<and>
   (\<forall>c. image_count event = Inr c \<longrightarrow> (\<exists>n. c = PyInt n \<and> 1 \<le> n \<and> n \<le> 4)) \<and>
   (py_getitem (fst (lambda_handler ev event ctx)) (PyStr ''status_code'') = Inr (PyInt 200) \<longrightarrow>
      (\<exists>n urls. image_count event = Inr (PyInt n) \<and> 1 \<le> n \<and> n \<le> 4 \<and>
         fst (lambda_handler ev event ctx) =
           PyDict [(''status_code'', PyInt 200), (''image_urls'', PyList urls)] \<and>
         int (length urls) = n))"
proof (intro conjI allI impI)
  fix kvs assume "event = PyDict kvs" "map_of kvs ''image_count'' = None"
  then show "image_count event = Inr (PyInt 1)" by (simp add: image_count_absent)
next
  fix kvs c assume "event = PyDict kvs" "map_of kvs ''image_count'' = Some (PyInt c)"
  then show "image_count event = Inr (PyInt (max 1 (min c 4)))" by (simp add: image_count_int)
next
  fix c assume "image_count event = Inr c"
  then show "\<exists>n. c = PyInt n \<and> 1 \<le> n \<and> n \<le> 4" by (rule image_count_cases)
next
  assume ok: "py_getitem (fst (lambda_handler ev event ctx)) (PyStr ''status_code'')
                = Inr (PyInt 200)"
  obtain resp log where r: "lambda_handler ev event ctx = (resp, log)"
    by (cases "lambda_handler ev event ctx")
  with ok handler_200 [OF r]
  show "\<exists>n urls. image_count event = Inr (PyInt n) \<and> 1 \<le> n \<and> n \<le> 4 \<and>
         fst (lambda_handler ev event ctx) =
           PyDict [(''status_code'', PyInt 200), (''image_urls'', PyList urls)] \<and>
         int (length urls) = n" by simp
qed

theorem lambda_handler_image_count_witness:
  "map_of [(''one_time_token'', PyStr ''tok_123''), (''image_count'', PyInt 7)] ''image_count''
     = Some (PyInt 7) \<and>
   image_count seven_images = Inr (PyInt 4) \<and>
   fst (lambda_handler fake_env seven_images PyNone) =
     PyDict [(''status_code'', PyInt 200),
             (''image_urls'', PyList (replicate 4 (PyStr ''http://fake.jpg'')))] \<and>
   map_of [(''one_time_token'', PyStr ''tok_123''), (''prompt'', PyStr ''test'')] ''image_count''
     = None \<and>
   image_count no_count = Inr (PyInt 1)"
proof -
  have a: "map_of [(''one_time_token'', PyStr ''tok_123''), (''image_count'', PyInt 7)]
             ''image_count'' = Some (PyInt 7)" by simp
  have b: "map_of [(''one_time_token'', PyStr ''tok_123''), (''prompt'', PyStr ''test'')]
             ''image_count'' = None" by simp
  have c: "fst (lambda_handler fake_env seven_images PyNone) =
     PyDict [(''status_code'', PyInt 200),
             (''image_urls'', PyList (replicate 4 (PyStr ''http://fake.jpg'')))]"
    by (simp add: lambda_handler_def handler_try_def image_count_def py_min_def py_max_def
        py_lt_def py_ne_int_def seven_images_def fake_env_def generate_single_def py_index_def
        upt_4 numeral_eq_Suc)
  from lambda_handler_image_count [of seven_images fake_env PyNone]
       lambda_handler_image_count [of no_count fake_env PyNone] a b c
  show ?thesis by (simp add: seven_images_def no_count_def)
qed

text \<open>
  Claim C9. Whenever the call \<open>payment.request(token)\<close> that \<open>lambda_handler\<close> makes
  returns a value other than 200, the answer is \<open>status_code\<close> 402 with an empty
  \<open>image_urls\<close>, the payment call is the only external call made, so
  \<open>fal_client.subscribe\<close> is never invoked, and the token passed was the event's
  \<open>one_time_token\<close>.
\<close>

theorem lambda_handler_payment_refused:
  assumes "lambda_handler ev event ctx = (resp, log)"
      and "PaymentRequest tok (Inr answer) \<in> set log"
      and "py_ne_int answer 200"
  shows "resp = PyDict [(''status_code'', PyInt 402), (''image_urls'', PyList [])] \<and>
         log = [PaymentRequest tok (Inr answer)] \<and>
         (\<forall>m a. FalSubscribe m a \<notin> set log) \<and>
         py_get event ''one_time_token'' PyNone = Inr tok"
proof -
  from assms(1) have l: "snd (handler_try ev event) = log"
    using snd_lambda_handler [of ev event ctx] by simp
  with assms(2) handler_try_payment_logged [of tok "Inr answer" ev event]
  obtain model_id prompt count where t: "py_get event ''one_time_token'' PyNone = Inr tok"
    and p: "payment_request ev tok = Inr answer"
    and q: "py_get event ''model_name'' (PyStr ''fal-ai/flux/dev'') = Inr model_id"
           "py_get event ''prompt'' PyNone = Inr prompt" "image_count event = Inr count"
    by auto
  from assms(1) t p q assms(3)
  have "resp = PyDict [(''status_code'', PyInt 402), (''image_urls'', PyList [])] \<and>
        log = [PaymentRequest tok (Inr answer)]"
    by (auto simp: lambda_handler_def handler_try_def Let_def split: sum.splits)
  with t show ?thesis by auto
qed

theorem lambda_handler_payment_refused_witness:
  "lambda_handler refusing_env bad_token PyNone =
     (PyDict [(''status_code'', PyInt 402), (''image_urls'', PyList [])],
      [PaymentRequest (PyStr ''bad_token'') (Inr (PyInt 402))]) \<and>
   py_ne_int (PyInt 402) 200 \<and>
   (\<forall>m a. FalSubscribe m a \<notin> set [PaymentRequest (PyStr ''bad_token'') (Inr (PyInt 402))])"
proof -
  have r: "lambda_handler refusing_env bad_token PyNone =
     (PyDict [(''status_code'', PyInt 402), (''image_urls'', PyList [])],
      [PaymentRequest (PyStr ''bad_token'') (Inr (PyInt 402))])"
    by (simp add: lambda_handler_def handler_try_def image_count_def py_min_def py_max_def
        py_lt_def py_ne_int_def refusing_env_def fake_env_def bad_token_def)
  have m: "PaymentRequest (PyStr ''bad_token'') (Inr (PyInt 402))
             \<in> set [PaymentRequest (PyStr ''bad_token'') (Inr (PyInt 402))]" by simp
  have n: "py_ne_int (PyInt 402) 200" by (simp add: py_ne_int_def)
  from lambda_handler_payment_refused [OF r m n] r n show ?thesis by simp
qed

text \<open>
  Claim C10. \<open>lambda_handler\<close> returns a dict for every event and every behaviour of
  its collaborators: its \<open>status_code\<close> is 200, 402 or 500; it is 500 exactly through
  the \<open>except\<close> clause, and then \<open>message\<close> is the text of the exception that the
  \<open>try\<close> block raised. In particular an exception raised by \<open>payment.request\<close> gives
  500 with that exception's text, and a generation whose \<open>fal_client.subscribe\<close> raises
  gives 500 with the text of the exception that left the \<open>try\<close> block.
\<close>

theorem lambda_handler_never_raises:
  "(\<exists>code. py_getitem (fst (lambda_handler ev event ctx)) (PyStr ''status_code'')
             = Inr (PyInt code) \<and>
      code \<in> {200, 402, 500} \<and>
      (code = 500 \<longrightarrow>
         (\<exists>e. fst (handler_try ev event) = Inl e \<and>
              fst (lambda_handler ev event ctx) =
                PyDict [(''status_code'', PyInt 500), (''message'', PyStr (exn_str e))]))) \<and>
   (\<forall>tok e. PaymentRequest tok (Inl e) \<in> set (snd (lambda_handler ev event ctx)) \<longrightarrow>
      fst (lambda_handler ev event ctx) =
        PyDict [(''status_code'', PyInt 500), (''message'', PyStr (exn_str e))]) \<and>
   (\<forall>m a n i e. FalSubscribe m a \<in> set (snd (lambda_handler ev event ctx)) \<longrightarrow>
      image_count event = Inr (PyInt n) \<longrightarrow> i < nat n \<longrightarrow> fal_subscribe ev i m a = Inl e \<longrightarrow>
      (\<exists>e'. fst (handler_try ev event) = Inl e' \<and>
            fst (lambda_handler ev event ctx) =
              PyDict [(''status_code'', PyInt 500), (''message'', PyStr (exn_str e'))]))"
proof (intro conjI allI impI)
  show "\<exists>code. py_getitem (fst (lambda_handler ev event ctx)) (PyStr ''status_code'')
             = Inr (PyInt code) \<and>
      code \<in> {200, 402, 500} \<and>
      (code = 500 \<longrightarrow>
         (\<exists>e. fst (handler_try ev event) = Inl e \<and>
              fst (lambda_handler ev event ctx) =
                PyDict [(''status_code'', PyInt 500), (''message'', PyStr (exn_str e))]))"
  proof (cases "fst (handler_try ev event)")
    case (Inl e)
    then have "fst (lambda_handler ev event ctx) =
        PyDict [(''status_code'', PyInt 500), (''message'', PyStr (exn_str e))]"
      by (cases "handler_try ev event") (simp add: lambda_handler_def)
    with Inl show ?thesis by simp
  next
    case (Inr resp)
    then have "fst (lambda_handler ev event ctx) = resp"
      by (cases "handler_try ev event") (simp add: lambda_handler_def)
    with handler_try_status [OF Inr] show ?thesis by auto
  qed
next
  fix tok e
  assume "PaymentRequest tok (Inl e) \<in> set (snd (lambda_handler ev event ctx))"
  then have "PaymentRequest tok (Inl e) \<in> set (snd (handler_try ev event))"
    by (simp add: snd_lambda_handler)
  from handler_try_payment_logged [OF this]
  show "fst (lambda_handler ev event ctx) =
        PyDict [(''status_code'', PyInt 500), (''message'', PyStr (exn_str e))]"
    by (auto simp: lambda_handler_def handler_try_def Let_def)
next
  fix m a n i e
  assume "FalSubscribe m a \<in> set (snd (lambda_handler ev event ctx))"
    and n: "image_count event = Inr (PyInt n)" "i < nat n" "fal_subscribe ev i m a = Inl e"
  then have "FalSubscribe m a \<in> set (snd (handler_try ev event))"
    by (simp add: snd_lambda_handler)
  from handler_try_fal_raises [OF this n] obtain e' where e': "fst (handler_try ev event) = Inl e'"
    by auto
  then have "fst (lambda_handler ev event ctx) =
        PyDict [(''status_code'', PyInt 500), (''message'', PyStr (exn_str e'))]"
    by (cases "handler_try ev event") (simp add: lambda_handler_def)
  with e' show "\<exists>e'. fst (handler_try ev event) = Inl e' \<and>
            fst (lambda_handler ev event ctx) =
              PyDict [(''status_code'', PyInt 500), (''message'', PyStr (exn_str e'))]" by auto
qed

theorem lambda_handler_never_raises_witness:
  "PaymentRequest (PyStr ''tok_123'') (Inl (PyExn ''Exception'' ''Connection Timeout''))
     \<in> set (snd (lambda_handler timeout_env no_count PyNone)) \<and>
   fst (lambda_handler timeout_env no_count PyNone) =
     PyDict [(''status_code'', PyInt 500), (''message'', PyStr ''Connection Timeout'')] \<and>
   FalSubscribe (PyStr ''fal-ai/flux/dev'') (PyDict [(''prompt'', PyStr ''test'')])
     \<in> set (snd (lambda_handler broken_fal_env no_count PyNone)) \<and>
   image_count no_count = Inr (PyInt 1) \<and>
   fal_subscribe broken_fal_env 0 (PyStr ''fal-ai/flux/dev'')
       (PyDict [(''prompt'', PyStr ''test'')]) = Inl (PyExn ''Exception'' ''fal.ai unavailable'') \<and>
   fst (lambda_handler broken_fal_env no_count PyNone) =
     PyDict [(''status_code'', PyInt 500), (''message'', PyStr ''fal.ai unavailable'')]"
proof -
  have h: "handler_try timeout_env no_count =
      (Inl (PyExn ''Exception'' ''Connection Timeout''),
       [PaymentRequest (PyStr ''tok_123'') (Inl (PyExn ''Exception'' ''Connection Timeout''))])"
    by (simp add: handler_try_def image_count_def py_min_def py_max_def
        py_lt_def timeout_env_def fake_env_def no_count_def Let_def)
  then have m: "PaymentRequest (PyStr ''tok_123'') (Inl (PyExn ''Exception'' ''Connection Timeout''))
     \<in> set (snd (lambda_handler timeout_env no_count PyNone))"
    by (simp add: lambda_handler_def)
  have g: "handler_try broken_fal_env no_count =
      (Inl (PyExn ''Exception'' ''fal.ai unavailable''),
       [PaymentRequest (PyStr ''tok_123'') (Inr (PyInt 200)),
        FalSubscribe (PyStr ''fal-ai/flux/dev'') (PyDict [(''prompt'', PyStr ''test'')])])"
    by (simp add: handler_try_def image_count_def py_min_def py_max_def py_lt_def
        py_ne_int_def broken_fal_env_def fake_env_def no_count_def generate_single_def Let_def)
  then have f: "FalSubscribe (PyStr ''fal-ai/flux/dev'') (PyDict [(''prompt'', PyStr ''test'')])
     \<in> set (snd (lambda_handler broken_fal_env no_count PyNone))"
    by (simp add: lambda_handler_def)
  have c: "image_count no_count = Inr (PyInt 1)" "(0::nat) < nat 1"
    "fal_subscribe broken_fal_env 0 (PyStr ''fal-ai/flux/dev'')
       (PyDict [(''prompt'', PyStr ''test'')]) = Inl (PyExn ''Exception'' ''fal.ai unavailable'')"
    by (simp_all add: image_count_def py_min_def py_max_def py_lt_def no_count_def
        broken_fal_env_def fake_env_def)
  from lambda_handler_never_raises [of timeout_env no_count PyNone]
       lambda_handler_never_raises [of broken_fal_env no_count PyNone] m h f g c
  show ?thesis by auto
qed

section \<open>Properties of \<open>handlePayment\<close>\<close>

lemma checkDynamoDB_update [simp]: "checkDynamoDB (updateDynamoDB t oid ''Paid'') oid"
  by (simp add: checkDynamoDB_def updateDynamoDB_def)

lemma checkDynamoDB_update_other:
  "checkDynamoDB t oid \<Longrightarrow> checkDynamoDB (updateDynamoDB t oid' ''Paid'') oid"
  by (auto simp: checkDynamoDB_def updateDynamoDB_def split: option.splits)

lemma handlePayment_unreadable:
  "on_read fate = ReadFails message \<Longrightarrow>
     handlePayment create fate ev w = (\<lparr>statusCode = 500, body = message\<rparr>, w)"
  by (simp add: handlePayment_def await_checkDynamoDB_def)

lemma handlePayment_paid:
  "checkDynamoDB (db w) (order_id ev) \<Longrightarrow>
     handlePayment create fate ev w =
       (case on_read fate of
          ReadOk \<Rightarrow> \<lparr>statusCode = 200, body = ''Already Paid''\<rparr>
        | ReadFails message \<Rightarrow> \<lparr>statusCode = 500, body = message\<rparr>, w)"
  by (simp add: handlePayment_def await_checkDynamoDB_def split: read_fate.splits)

lemma handlePayment_200:
  "handlePayment create fate ev w = (r, w') \<Longrightarrow> statusCode r = 200 \<Longrightarrow>
     checkDynamoDB (db w') (order_id ev)"
  by (auto simp: handlePayment_def await_checkDynamoDB_def await_updateDynamoDB_def
           split: if_splits prod.splits sum.splits read_fate.splits write_fate.splits)

lemma handlePayment_table:
  "db (snd (handlePayment create fate ev w)) = db w \<or>
   db (snd (handlePayment create fate ev w)) = updateDynamoDB (db w) (order_id ev) ''Paid''"
  by (auto simp: handlePayment_def await_checkDynamoDB_def await_updateDynamoDB_def
           split: prod.splits sum.splits read_fate.splits write_fate.splits)

lemma handlePayment_refused:
  "create (charge_request ev) (stripe w) = (Inl message, g) \<Longrightarrow>
     db (snd (handlePayment create fate ev w)) = db w"
  by (auto simp: handlePayment_def await_checkDynamoDB_def
           split: prod.splits sum.splits read_fate.splits)

lemma handlePayment_keeps_paid:
  "checkDynamoDB (db w) oid \<Longrightarrow> checkDynamoDB (db (snd (handlePayment create fate ev w))) oid"
  using handlePayment_table [of create fate ev w]
  by (auto simp: checkDynamoDB_update_other)

lemma handleAll_paid:
  "checkDynamoDB (db w) oid \<Longrightarrow> \<forall>x \<in> set reqs. order_id (snd x) = oid \<Longrightarrow>
     handleAll create reqs w =
       (map (\<lambda>x. case on_read (fst x) of
                    ReadOk \<Rightarrow> \<lparr>statusCode = 200, body = ''Already Paid''\<rparr>
                  | ReadFails message \<Rightarrow> \<lparr>statusCode = 500, body = message\<rparr>) reqs, w)"
  by (induction reqs) (simp_all add: handlePayment_paid)

lemma handleAll_keeps_paid:
  "checkDynamoDB (db w) oid \<Longrightarrow> checkDynamoDB (db (snd (handleAll create reqs w))) oid"
proof (induction reqs arbitrary: w)
  case Nil
  then show ?case by simp
next
  case (Cons req reqs)
  from handlePayment_keeps_paid [OF Cons.prems, of create "fst req" "snd req"]
  have "checkDynamoDB
          (db (snd (handleAll create reqs (snd (handlePayment create (fst req) (snd req) w))))) oid"
    by (rule Cons.IH)
  then show ?case by (auto split: prod.splits)
qed

lemma order_id_o3: "order_id pay_o3 = ''o3''"
  by (simp add: pay_o3_def)

lemma first_o3:
  "handlePayment (stripe_charges_create approving) reliable pay_o3 fresh =
     (\<lparr>statusCode = 200, body = JSON_stringify receipt\<rparr>,
      \<lparr>db = updateDynamoDB Map.empty ''o3'' ''Paid'',
       stripe = \<lparr>outcomes = [''o3'' \<mapsto> Inr receipt], ledger = [charge_request pay_o3]\<rparr>,
       calls = [charge_request pay_o3]\<rparr>)"
  by (simp add: handlePayment_def stripe_charges_create_def approving_def fresh_def pay_o3_def
      checkDynamoDB_def charge_request_def Let_def reliable_def await_checkDynamoDB_def
      await_updateDynamoDB_def receipt_def)

text \<open>
  Claim C2 says that a repeated call returns the receipt the first call returned. For
  order \<open>o3\<close>, an empty table whose calls succeed and a processor that approves, the
  first call returns the charge object and the second the text \<open>Already Paid\<close>: the
  table keeps the status only, no receipt.
\<close>

theorem cached_receipt_counterexample:
  "body (fst (handlePayment (stripe_charges_create approving) reliable pay_o3 fresh)) =
     JSON_stringify (JObj [(''id'', JStr ''ch_1''), (''amount'', JNum 1000), (''paid'', JBool True)]) \<and>
   body (fst (handlePayment (stripe_charges_create approving) reliable pay_o3
               (snd (handlePayment (stripe_charges_create approving) reliable pay_o3 fresh)))) =
     ''Already Paid'' \<and>
   fst (handlePayment (stripe_charges_create approving) reliable pay_o3
               (snd (handlePayment (stripe_charges_create approving) reliable pay_o3 fresh))) \<noteq>
   fst (handlePayment (stripe_charges_create approving) reliable pay_o3 fresh)"
proof -
  let ?first = "handlePayment (stripe_charges_create approving) reliable pay_o3 fresh"
  have paid: "checkDynamoDB (db (snd ?first)) (order_id pay_o3)"
    using order_id_o3 by (simp add: first_o3)
  have second: "handlePayment (stripe_charges_create approving) reliable pay_o3 (snd ?first) =
      (\<lparr>statusCode = 200, body = ''Already Paid''\<rparr>, snd ?first)"
    using handlePayment_paid [OF paid, of "stripe_charges_create approving" reliable]
    by (simp add: reliable_def)
  have differ: "JSON_stringify receipt \<noteq> ''Already Paid''"
    by (simp add: quote_def receipt_def)
  show ?thesis
    unfolding second using differ by (simp add: first_o3 receipt_def)
qed

text \<open>
  Claim C2, as the code has it. After a call of \<open>handlePayment\<close> that answered 200 the
  order is marked \<open>Paid\<close>, and the same call again issues no gateway call and changes
  nothing: the table, the gateway and the log of calls stay as they were. When its read
  of the table succeeds it answers 200 with the fixed body \<open>Already Paid\<close>; when the
  read rejects it answers 500 with the message of the rejection.
\<close>

theorem handlePayment_again:
  assumes "handlePayment create fate ev w = (r, w')" and "statusCode r = 200"
  shows "handlePayment create fate' ev w' =
           (case on_read fate' of
              ReadOk \<Rightarrow> \<lparr>statusCode = 200, body = ''Already Paid''\<rparr>
            | ReadFails message \<Rightarrow> \<lparr>statusCode = 500, body = message\<rparr>, w')"
  using handlePayment_200 [OF assms] by (rule handlePayment_paid)

theorem handlePayment_again_witness:
  "fst (handlePayment (stripe_charges_create approving) reliable pay_o3 fresh) =
     \<lparr>statusCode = 200, body = JSON_stringify receipt\<rparr> \<and>
   calls (snd (handlePayment (stripe_charges_create approving) reliable pay_o3 fresh)) =
     [charge_request pay_o3] \<and>
   handlePayment (stripe_charges_create approving) reliable pay_o3
      (snd (handlePayment (stripe_charges_create approving) reliable pay_o3 fresh)) =
     (\<lparr>statusCode = 200, body = ''Already Paid''\<rparr>,
      snd (handlePayment (stripe_charges_create approving) reliable pay_o3 fresh)) \<and>
   handlePayment (stripe_charges_create approving) unreadable pay_o3
      (snd (handlePayment (stripe_charges_create approving) reliable pay_o3 fresh)) =
     (\<lparr>statusCode = 500, body = ''ProvisionedThroughputExceededException''\<rparr>,
      snd (handlePayment (stripe_charges_create approving) reliable pay_o3 fresh))"
proof -
  let ?first = "handlePayment (stripe_charges_create approving) reliable pay_o3 fresh"
  have a: "?first = (\<lparr>statusCode = 200, body = JSON_stringify receipt\<rparr>, snd ?first)"
    by (simp add: first_o3)
  have b: "statusCode \<lparr>statusCode = 200, body = JSON_stringify receipt\<rparr> = 200"
    by simp
  have c: "on_read reliable = ReadOk"
    "on_read unreadable = ReadFails ''ProvisionedThroughputExceededException''"
    by (simp_all add: reliable_def unreadable_def)
  from handlePayment_again [OF a b, of reliable] handlePayment_again [OF a b, of unreadable] c
  show ?thesis by (simp add: first_o3)
qed

text \<open>
  Claim C3 says that a request whose amount or feature differs from the order's record is
  answered with \<open>IntegrityViolation\<close> and never charged. Order \<open>o4\<close> was created
  for feature A at 500 and is unpaid; the request for it names feature B at 100. The
  handler answers 200 and issues a charge, for its fixed amount.
\<close>

theorem swap_counterexample:
  "map_of (other swap_o4) ''amount'' = Some (JNum 100) \<and>
   statusCode (fst (handlePayment (stripe_charges_create approving) reliable swap_o4
                     (fresh\<lparr>db := pending_o4\<rparr>))) = 200 \<and>
   calls (snd (handlePayment (stripe_charges_create approving) reliable swap_o4
                 (fresh\<lparr>db := pending_o4\<rparr>))) =
     [\<lparr>amount = 1000, currency = ''jpy'', source = ''tok_visa'', idempotencyKey = ''o4''\<rparr>]"
  by (simp add: handlePayment_def stripe_charges_create_def approving_def fresh_def swap_o4_def
      pending_o4_def checkDynamoDB_def charge_request_def Let_def reliable_def
      await_checkDynamoDB_def await_updateDynamoDB_def)

text \<open>
  Claim C3, as the code has it. \<open>handlePayment\<close> makes no integrity check: it reads
  \<open>order_id\<close> and \<open>token\<close> only, so whatever else the request carries (an amount, a
  feature) changes neither its answer nor its effect. When its read of the table rejects
  it answers 500 and issues no gateway call. When the read succeeds: for an order already
  marked \<open>Paid\<close> it answers \<open>Already Paid\<close> and issues no gateway call; for any
  other order it issues exactly one gateway call, for the fixed amount 1000 JPY with the
  \<open>order_id\<close> as idempotency key. Its status is 200 or 500.
\<close>

theorem handlePayment_no_integrity_check:
  "handlePayment create fate (ev\<lparr>other := sent\<rparr>) w = handlePayment create fate ev w \<and>
   (\<forall>message. on_read fate = ReadFails message \<longrightarrow>
      handlePayment create fate ev w = (\<lparr>statusCode = 500, body = message\<rparr>, w)) \<and>
   (on_read fate = ReadOk \<longrightarrow> checkDynamoDB (db w) (order_id ev) \<longrightarrow>
      handlePayment create fate ev w = (\<lparr>statusCode = 200, body = ''Already Paid''\<rparr>, w)) \<and>
   (on_read fate = ReadOk \<longrightarrow> \<not> checkDynamoDB (db w) (order_id ev) \<longrightarrow>
      calls (snd (handlePayment create fate ev w)) =
        calls w @ [\<lparr>amount = 1000, currency = ''jpy'', source = token ev,
                     idempotencyKey = order_id ev\<rparr>]) \<and>
   statusCode (fst (handlePayment create fate ev w)) \<in> {200, 500}"
  by (auto simp: handlePayment_def charge_request_def await_checkDynamoDB_def
        await_updateDynamoDB_def
      split: prod.splits sum.splits read_fate.splits write_fate.splits)

theorem handlePayment_no_integrity_check_witness:
  "\<not> checkDynamoDB (db (fresh\<lparr>db := pending_o4\<rparr>)) (order_id swap_o4) \<and>
   calls (snd (handlePayment (stripe_charges_create approving) reliable swap_o4
                 (fresh\<lparr>db := pending_o4\<rparr>))) =
     [\<lparr>amount = 1000, currency = ''jpy'', source = ''tok_visa'', idempotencyKey = ''o4''\<rparr>] \<and>
   checkDynamoDB (db (fresh\<lparr>db := paid_o4\<rparr>)) (order_id swap_o4) \<and>
   handlePayment (stripe_charges_create approving) reliable swap_o4 (fresh\<lparr>db := paid_o4\<rparr>) =
     (\<lparr>statusCode = 200, body = ''Already Paid''\<rparr>, fresh\<lparr>db := paid_o4\<rparr>) \<and>
   handlePayment (stripe_charges_create approving) unreadable swap_o4
       (fresh\<lparr>db := pending_o4\<rparr>) =
     (\<lparr>statusCode = 500, body = ''ProvisionedThroughputExceededException''\<rparr>,
      fresh\<lparr>db := pending_o4\<rparr>)"
proof -
  have a: "\<not> checkDynamoDB (db (fresh\<lparr>db := pending_o4\<rparr>)) (order_id swap_o4)"
    by (simp add: checkDynamoDB_def pending_o4_def swap_o4_def)
  have b: "checkDynamoDB (db (fresh\<lparr>db := paid_o4\<rparr>)) (order_id swap_o4)"
    by (simp add: checkDynamoDB_def paid_o4_def swap_o4_def)
  have c: "calls (fresh\<lparr>db := pending_o4\<rparr>) = []" "token swap_o4 = ''tok_visa''"
    "order_id swap_o4 = ''o4''"
    by (simp_all add: fresh_def swap_o4_def)
  have d: "on_read reliable = ReadOk"
    "on_read unreadable = ReadFails ''ProvisionedThroughputExceededException''"
    by (simp_all add: reliable_def unreadable_def)
  from handlePayment_no_integrity_check
         [where create = "stripe_charges_create approving" and fate = reliable and ev = swap_o4
            and sent = "other swap_o4" and w = "fresh\<lparr>db := pending_o4\<rparr>"]
       handlePayment_no_integrity_check
         [where create = "stripe_charges_create approving" and fate = reliable and ev = swap_o4
            and sent = "other swap_o4" and w = "fresh\<lparr>db := paid_o4\<rparr>"]
       handlePayment_no_integrity_check
         [where create = "stripe_charges_create approving" and fate = unreadable and ev = swap_o4
            and sent = "other swap_o4" and w = "fresh\<lparr>db := pending_o4\<rparr>"]
       a b c d
  show ?thesis by simp
qed

text \<open>
  Claim C4 says that an order whose status is \<open>FAILED_TERMINAL\<close> gets no further
  gateway call. The handler knows the status \<open>Paid\<close> only: with an item marked
  \<open>FAILED_TERMINAL\<close> in the table it calls the gateway; and when the processor
  refuses the card for \<open>o5\<close>, the handler answers 500 and records nothing, so the retry
  calls the gateway again.
\<close>

theorem terminal_counterexample:
  "calls (snd (handlePayment (stripe_charges_create declining) reliable pay_o5
                 (fresh\<lparr>db := terminal_o5\<rparr>))) = [charge_request pay_o5] \<and>
   fst (handleAll (stripe_charges_create declining) [(reliable, pay_o5), (reliable, pay_o5)] fresh) =
     [\<lparr>statusCode = 500, body = ''Your card was declined.''\<rparr>,
      \<lparr>statusCode = 500, body = ''Your card was declined.''\<rparr>] \<and>
   calls (snd (handleAll (stripe_charges_create declining)
                 [(reliable, pay_o5), (reliable, pay_o5)] fresh)) =
     [charge_request pay_o5, charge_request pay_o5] \<and>
   db (snd (handleAll (stripe_charges_create declining)
              [(reliable, pay_o5), (reliable, pay_o5)] fresh)) ''o5'' = None"
  by (simp add: handlePayment_def stripe_charges_create_def declining_def fresh_def pay_o5_def
      terminal_o5_def checkDynamoDB_def charge_request_def Let_def reliable_def
      await_checkDynamoDB_def)

text \<open>
  Claim C4, as the code has it. Once an order is marked \<open>Paid\<close> it stays so whatever
  requests follow, for this order or for others; and any sequence of calls for this order
  issues no gateway call and changes nothing, each call answering 200 with
  \<open>Already Paid\<close> when its read of the table succeeds and 500 with the message of the
  rejection when it does not. The code records no terminal failure: a call whose charge
  the gateway refuses leaves the table as it was, and the only write a call ever makes
  is the status \<open>Paid\<close> of its own order.
\<close>

theorem paid_is_final:
  "(checkDynamoDB (db w) oid \<longrightarrow>
      ((\<forall>x \<in> set reqs. order_id (snd x) = oid) \<longrightarrow>
         handleAll create reqs w =
           (map (\<lambda>x. case on_read (fst x) of
                        ReadOk \<Rightarrow> \<lparr>statusCode = 200, body = ''Already Paid''\<rparr>
                      | ReadFails message \<Rightarrow> \<lparr>statusCode = 500, body = message\<rparr>) reqs, w)) \<and>
      checkDynamoDB (db (snd (handleAll create reqs w))) oid) \<and>
   (\<forall>message g. create (charge_request ev) (stripe w) = (Inl message, g) \<longrightarrow>
      db (snd (handlePayment create fate ev w)) = db w) \<and>
   (db (snd (handlePayment create fate ev w)) = db w \<or>
    db (snd (handlePayment create fate ev w)) = updateDynamoDB (db w) (order_id ev) ''Paid'')"
  using handlePayment_table [of create fate ev w]
  by (auto simp: handleAll_paid handleAll_keeps_paid handlePayment_refused)

theorem paid_is_final_witness:
  "checkDynamoDB (db (fresh\<lparr>db := paid_o4\<rparr>)) ''o4'' \<and>
   order_id swap_o4 = ''o4'' \<and> order_id (swap_o4\<lparr>token := ''tok_other''\<rparr>) = ''o4'' \<and>
   handleAll (stripe_charges_create approving)
       [(reliable, swap_o4), (unreadable, swap_o4\<lparr>token := ''tok_other''\<rparr>)]
       (fresh\<lparr>db := paid_o4\<rparr>) =
     ([\<lparr>statusCode = 200, body = ''Already Paid''\<rparr>,
       \<lparr>statusCode = 500, body = ''ProvisionedThroughputExceededException''\<rparr>],
      fresh\<lparr>db := paid_o4\<rparr>) \<and>
   stripe_charges_create declining (charge_request pay_o5) (stripe fresh) =
     (Inl ''Your card was declined.'',
      \<lparr>outcomes = [''o5'' \<mapsto> Inl ''Your card was declined.''], ledger = []\<rparr>) \<and>
   db (snd (handlePayment (stripe_charges_create declining) reliable pay_o5 fresh)) = db fresh"
proof -
  let ?reqs = "[(reliable, swap_o4), (unreadable, swap_o4\<lparr>token := ''tok_other''\<rparr>)]"
  have a: "checkDynamoDB (db (fresh\<lparr>db := paid_o4\<rparr>)) ''o4''"
    by (simp add: checkDynamoDB_def paid_o4_def)
  have b: "order_id swap_o4 = ''o4''" "order_id (swap_o4\<lparr>token := ''tok_other''\<rparr>) = ''o4''"
    by (simp_all add: swap_o4_def)
  then have b': "\<forall>x \<in> set ?reqs. order_id (snd x) = ''o4''" by simp
  have c: "map (\<lambda>x. case on_read (fst x) of
                        ReadOk \<Rightarrow> \<lparr>statusCode = 200, body = ''Already Paid''\<rparr>
                      | ReadFails message \<Rightarrow> \<lparr>statusCode = 500, body = message\<rparr>) ?reqs =
           [\<lparr>statusCode = 200, body = ''Already Paid''\<rparr>,
            \<lparr>statusCode = 500, body = ''ProvisionedThroughputExceededException''\<rparr>]"
    by (simp add: reliable_def unreadable_def)
  have d: "stripe_charges_create declining (charge_request pay_o5) (stripe fresh) =
     (Inl ''Your card was declined.'',
      \<lparr>outcomes = [''o5'' \<mapsto> Inl ''Your card was declined.''], ledger = []\<rparr>)"
    by (simp add: stripe_charges_create_def declining_def charge_request_def pay_o5_def
        fresh_def Let_def)
  from paid_is_final [where w = "fresh\<lparr>db := paid_o4\<rparr>" and oid = "''o4''" and reqs = ?reqs
         and create = "stripe_charges_create approving"] a b'
  have e: "handleAll (stripe_charges_create approving) ?reqs (fresh\<lparr>db := paid_o4\<rparr>) =
     (map (\<lambda>x. case on_read (fst x) of
                        ReadOk \<Rightarrow> \<lparr>statusCode = 200, body = ''Already Paid''\<rparr>
                      | ReadFails message \<Rightarrow> \<lparr>statusCode = 500, body = message\<rparr>) ?reqs,
      fresh\<lparr>db := paid_o4\<rparr>)"
    by blast
  from paid_is_final [where w = fresh and create = "stripe_charges_create declining"
         and ev = pay_o5 and fate = reliable] d
  have f: "db (snd (handlePayment (stripe_charges_create declining) reliable pay_o5 fresh)) = db fresh"
    by blast
  from a b d e f show ?thesis unfolding c by blast
qed

section \<open>Properties of concurrent invocations\<close>

text \<open>
  An invocation that runs alone, from its arrival to its return, does what
  \<open>handlePayment\<close> does, whatever the fate of its table calls: the steps of the
  interleaving model are those of the function.
\<close>

lemma run_alone:
  "\<exists>sched s'. run decide (Arrive ev # sched) s = Some s' \<and>
      shared s' = snd (handlePayment (stripe_charges_create decide) fate ev (shared s)) \<and>
      procs s' =
        procs s @
        [(ev, Returned (fst (handlePayment (stripe_charges_create decide) fate ev (shared s))))]"
proof -
  let ?i = "length (procs s)"
  let ?h = "handlePayment (stripe_charges_create decide) fate ev (shared s)"
  have "\<exists>sched. \<exists>c. run decide (Arrive ev # sched) s =
          Some (s\<lparr>shared := snd ?h, procs := procs s @ [(ev, Returned (fst ?h))], charged := c\<rparr>)"
  proof (cases "on_read fate")
    case (ReadFails message)
    then have "run decide (Arrive ev # [CheckFail ?i message]) s =
        Some (s\<lparr>shared := snd ?h, procs := procs s @ [(ev, Returned (fst ?h))],
                charged := charged s\<rparr>)"
      by (simp add: set_pc_def handlePayment_def await_checkDynamoDB_def)
    then show ?thesis by blast
  next
    case ReadOk
    show ?thesis
    proof (cases "checkDynamoDB (db (shared s)) (order_id ev)")
      case True
      with ReadOk have "run decide (Arrive ev # [Check ?i]) s =
          Some (s\<lparr>shared := snd ?h, procs := procs s @ [(ev, Returned (fst ?h))],
                  charged := charged s\<rparr>)"
        by (simp add: set_pc_def handlePayment_def await_checkDynamoDB_def)
      then show ?thesis by blast
    next
      case False
      obtain out g where
        g: "stripe_charges_create decide (charge_request ev) (stripe (shared s)) = (out, g)"
        by (cases "stripe_charges_create decide (charge_request ev) (stripe (shared s))")
      let ?c = "if length (ledger (stripe (shared s))) < length (ledger g)
                then charged s @ [order_id ev] else charged s"
      show ?thesis
      proof (cases out)
        case (Inl message)
        with ReadOk False g have "run decide (Arrive ev # [Check ?i, Charge ?i]) s =
          Some (s\<lparr>shared := snd ?h, procs := procs s @ [(ev, Returned (fst ?h))],
                  charged := ?c\<rparr>)"
          by (simp add: set_pc_def handlePayment_def call_processor_def await_checkDynamoDB_def)
        then show ?thesis by blast
      next
        case (Inr charge)
        show ?thesis
        proof (cases "on_write fate")
          case WriteOk
          with Inr ReadOk False g
          have "run decide (Arrive ev # [Check ?i, Charge ?i, Update ?i]) s =
            Some (s\<lparr>shared := snd ?h, procs := procs s @ [(ev, Returned (fst ?h))],
                    charged := ?c\<rparr>)"
            by (simp add: set_pc_def handlePayment_def call_processor_def
                await_checkDynamoDB_def await_updateDynamoDB_def)
          then show ?thesis by blast
        next
          case (WriteFails message)
          with Inr ReadOk False g
          have "run decide (Arrive ev # [Check ?i, Charge ?i, UpdateFail ?i message]) s =
            Some (s\<lparr>shared := snd ?h, procs := procs s @ [(ev, Returned (fst ?h))],
                    charged := ?c\<rparr>)"
            by (simp add: set_pc_def handlePayment_def call_processor_def
                await_checkDynamoDB_def await_updateDynamoDB_def)
          then show ?thesis by blast
        next
          case (WriteLost message)
          with Inr ReadOk False g
          have "run decide (Arrive ev # [Check ?i, Charge ?i, UpdateLost ?i message]) s =
            Some (s\<lparr>shared := snd ?h, procs := procs s @ [(ev, Returned (fst ?h))],
                    charged := ?c\<rparr>)"
            by (simp add: set_pc_def handlePayment_def call_processor_def
                await_checkDynamoDB_def await_updateDynamoDB_def)
          then show ?thesis by blast
        qed
      qed
    qed
  qed
  then obtain sched c where "run decide (Arrive ev # sched) s =
          Some (s\<lparr>shared := snd ?h, procs := procs s @ [(ev, Returned (fst ?h))], charged := c\<rparr>)"
    by blast
  then show ?thesis
    by (intro exI [of _ sched]
          exI [of _ "s\<lparr>shared := snd ?h, procs := procs s @ [(ev, Returned (fst ?h))],
                      charged := c\<rparr>"]) simp
qed

lemma stripe_charges_create_cases:
  assumes "stripe_charges_create decide req g = (out, g')"
  shows "(outcomes g (idempotencyKey req) = Some out \<and> g' = g) \<or>
         (outcomes g (idempotencyKey req) = None \<and>
          outcomes g' = (outcomes g)(idempotencyKey req \<mapsto> out) \<and>
          (ledger g' = ledger g \<or> ledger g' = ledger g @ [req]))"
  using assms
  by (auto simp: stripe_charges_create_def Let_def split: option.splits sum.splits)

lemma call_processor_shape:
  assumes "call_processor decide ev s = (out, s')"
  shows "procs s' = procs s \<and> db (shared s') = db (shared s) \<and>
         calls (shared s') = calls (shared s) @ [charge_request ev] \<and>
         ((outcomes (stripe (shared s)) (order_id ev) = Some out \<and>
           stripe (shared s') = stripe (shared s) \<and> charged s' = charged s) \<or>
          (outcomes (stripe (shared s)) (order_id ev) = None \<and>
           outcomes (stripe (shared s')) = (outcomes (stripe (shared s)))(order_id ev \<mapsto> out) \<and>
           ((ledger (stripe (shared s')) = ledger (stripe (shared s)) \<and> charged s' = charged s) \<or>
            (ledger (stripe (shared s')) = ledger (stripe (shared s)) @ [charge_request ev] \<and>
             charged s' = charged s @ [order_id ev]))))"
proof -
  obtain g where g: "stripe_charges_create decide (charge_request ev) (stripe (shared s)) = (out, g)"
    and s': "s' = s\<lparr>shared := (shared s)\<lparr>stripe := g,
                                    calls := calls (shared s) @ [charge_request ev]\<rparr>,
             charged := (if length (ledger (stripe (shared s))) < length (ledger g)
                         then charged s @ [order_id ev] else charged s)\<rparr>"
    using assms by (auto simp: call_processor_def split: prod.splits)
  from stripe_charges_create_cases [OF g] show ?thesis
    by (auto simp: s' charge_request_def)
qed

lemma call_processor_inv:
  assumes "charged_ok s"
  shows "charged_ok (snd (call_processor decide ev s))"
proof -
  obtain out s' where c: "call_processor decide ev s = (out, s')"
    by (cases "call_processor decide ev s")
  from call_processor_shape [OF c] assms show ?thesis
    by (fastforce simp: c charged_ok_def)
qed

lemma call_processor_ledger:
  assumes "map idempotencyKey (ledger (stripe (shared s))) = base @ charged s"
  shows "map idempotencyKey (ledger (stripe (shared (snd (call_processor decide ev s))))) =
           base @ charged (snd (call_processor decide ev s))"
proof -
  obtain out s' where c: "call_processor decide ev s = (out, s')"
    by (cases "call_processor decide ev s")
  from call_processor_shape [OF c] assms show ?thesis
    by (auto simp: c charge_request_def)
qed

lemma set_pc_fields [simp]:
  "shared (set_pc i p s) = shared s" "charged (set_pc i p s) = charged s"
  by (simp_all add: set_pc_def)

lemma charged_ok_set_pc [simp]: "charged_ok (set_pc i p s) = charged_ok s"
  by (simp add: charged_ok_def)

lemma step_Charge:
  assumes "step decide (Charge i) s = Some s'"
  shows "\<exists>ev. i < length (procs s) \<and> procs s ! i = (ev, AtCharge) \<and>
           s' = set_pc i (case fst (call_processor decide ev s) of
                            Inl message \<Rightarrow> Returned \<lparr>statusCode = 500, body = message\<rparr>
                          | Inr charge \<Rightarrow> AtUpdate charge)
                  (snd (call_processor decide ev s))"
proof -
  from assms have i: "i < length (procs s)" by (simp split: if_splits)
  obtain ev p where p: "procs s ! i = (ev, p)" by (cases "procs s ! i")
  with assms i have c: "p = AtCharge" by (cases p) simp_all
  obtain out s1 where o: "call_processor decide ev s = (out, s1)"
    by (cases "call_processor decide ev s")
  with assms i p c have "s' = set_pc i (case out of
                            Inl message \<Rightarrow> Returned \<lparr>statusCode = 500, body = message\<rparr>
                          | Inr charge \<Rightarrow> AtUpdate charge) s1"
    by (cases out) simp_all
  with i p c o show ?thesis by simp
qed

lemma step_Lost:
  assumes "step decide (Lost i) s = Some s'"
  shows "\<exists>ev. i < length (procs s) \<and> procs s ! i = (ev, AtCharge) \<and>
           s' = set_pc i (Returned \<lparr>statusCode = 500, body = ''connection error''\<rparr>)
                  (snd (call_processor decide ev s))"
proof -
  from assms have i: "i < length (procs s)" by (simp split: if_splits)
  obtain ev p where p: "procs s ! i = (ev, p)" by (cases "procs s ! i")
  with assms i have c: "p = AtCharge" by (cases p) simp_all
  with assms i p show ?thesis by simp
qed

lemma step_inv:
  assumes "charged_ok s" and "step decide a s = Some s'"
  shows "charged_ok s'"
proof (cases a)
  case (Arrive ev)
  with assms show ?thesis by (auto simp: charged_ok_def)
next
  case (Check i)
  with assms show ?thesis by (auto split: if_splits prod.splits pc.splits)
next
  case (Charge i)
  with assms(2) step_Charge [of decide i s s']
  obtain ev p where "s' = set_pc i p (snd (call_processor decide ev s))"
    by blast
  with call_processor_inv [OF assms(1), of decide ev] show ?thesis by simp
next
  case (Lost i)
  with assms(2) step_Lost [of decide i s s']
  obtain ev p where "s' = set_pc i p (snd (call_processor decide ev s))"
    by blast
  with call_processor_inv [OF assms(1), of decide ev] show ?thesis by simp
next
  case (Dropped i)
  with assms show ?thesis by (auto split: if_splits prod.splits pc.splits)
next
  case (Update i)
  with assms show ?thesis by (auto simp: charged_ok_def split: if_splits prod.splits pc.splits)
next
  case (CheckFail i message)
  with assms show ?thesis by (auto split: if_splits prod.splits pc.splits)
next
  case (UpdateFail i message)
  with assms show ?thesis by (auto split: if_splits prod.splits pc.splits)
next
  case (UpdateLost i message)
  with assms show ?thesis by (auto simp: charged_ok_def split: if_splits prod.splits pc.splits)
next
  case (Crash i)
  with assms show ?thesis by (auto split: if_splits prod.splits pc.splits)
qed

lemma run_inv:
  "charged_ok s \<Longrightarrow> run decide sched s = Some s' \<Longrightarrow> charged_ok s'"
proof (induction sched arbitrary: s)
  case Nil
  then show ?case by simp
next
  case (Cons a sched)
  then show ?case by (auto split: option.splits dest: step_inv)
qed

lemma step_ledger:
  assumes "map idempotencyKey (ledger (stripe (shared s))) = base @ charged s"
      and "step decide a s = Some s'"
  shows "map idempotencyKey (ledger (stripe (shared s'))) = base @ charged s'"
proof (cases a)
  case (Arrive ev)
  with assms show ?thesis by auto
next
  case (Check i)
  with assms show ?thesis by (auto split: if_splits prod.splits pc.splits)
next
  case (Charge i)
  with assms(2) step_Charge [of decide i s s']
  obtain ev p where "s' = set_pc i p (snd (call_processor decide ev s))"
    by blast
  with call_processor_ledger [OF assms(1), of decide ev] show ?thesis by simp
next
  case (Lost i)
  with assms(2) step_Lost [of decide i s s']
  obtain ev p where "s' = set_pc i p (snd (call_processor decide ev s))"
    by blast
  with call_processor_ledger [OF assms(1), of decide ev] show ?thesis by simp
next
  case (Dropped i)
  with assms show ?thesis by (auto split: if_splits prod.splits pc.splits)
next
  case (Update i)
  with assms show ?thesis by (auto split: if_splits prod.splits pc.splits)
next
  case (CheckFail i message)
  with assms show ?thesis by (auto split: if_splits prod.splits pc.splits)
next
  case (UpdateFail i message)
  with assms show ?thesis by (auto split: if_splits prod.splits pc.splits)
next
  case (UpdateLost i message)
  with assms show ?thesis by (auto split: if_splits prod.splits pc.splits)
next
  case (Crash i)
  with assms show ?thesis by (auto split: if_splits prod.splits pc.splits)
qed

lemma run_ledger:
  "map idempotencyKey (ledger (stripe (shared s))) = base @ charged s \<Longrightarrow>
   run decide sched s = Some s' \<Longrightarrow>
   map idempotencyKey (ledger (stripe (shared s'))) = base @ charged s'"
proof (induction sched arbitrary: s)
  case Nil
  then show ?case by simp
next
  case (Cons a sched)
  then show ?case by (auto split: option.splits dest: step_ledger)
qed

lemma distinct_count_list: "distinct xs \<Longrightarrow> count_list xs x \<le> 1"
  by (induction xs) (auto simp: count_list_0_iff)

lemma reissue_returns_original:
  assumes "i < length (procs s)" and "procs s ! i = (ev, AtCharge)"
      and "outcomes (stripe (shared s)) (order_id ev) = Some out"
  shows "\<exists>s'. step decide (Charge i) s = Some s' \<and>
              stripe (shared s') = stripe (shared s) \<and> charged s' = charged s \<and>
              procs s' ! i =
                (ev, case out of Inl message \<Rightarrow> Returned \<lparr>statusCode = 500, body = message\<rparr>
                     | Inr charge \<Rightarrow> AtUpdate charge)"
  using assms
  by (cases out)
     (simp_all add: call_processor_def stripe_charges_create_def charge_request_def set_pc_def)

lemma run_before_reissue:
  "run approving [Arrive abc_123, Check 0, Charge 0, Crash 0, Arrive abc_123, Check 1] idle
     = Some before_reissue"
  by (simp add: idle_def fresh_def abc_123_def approving_def set_pc_def call_processor_def
      stripe_charges_create_def charge_request_def checkDynamoDB_def Let_def before_reissue_def
      receipt_def)

text \<open>
  Claim C1. Take any schedule of arrivals, steps, lost answers and crashes of any number
  of invocations of \<open>handlePayment\<close>, started when nothing has been charged yet. Then
  for every \<open>order_id\<close> the processor made at most one real charge on behalf of the
  invocations for that order; the real charges are exactly the growth of the processor's
  ledger, each under the \<open>order_id\<close> as idempotency key. And an invocation that
  re-issues the charge for an order the processor has an outcome for (after a crash or a
  lost answer) takes a step in which the processor charges nothing and hands back that
  original outcome.
\<close>

theorem charged_at_most_once:
  assumes "charged s0 = []" and "run decide sched s0 = Some s"
  shows "count_list (charged s) oid \<le> 1 \<and>
         map idempotencyKey (ledger (stripe (shared s))) =
           map idempotencyKey (ledger (stripe (shared s0))) @ charged s \<and>
         (\<forall>i ev out. i < length (procs s) \<longrightarrow> procs s ! i = (ev, AtCharge) \<longrightarrow>
            outcomes (stripe (shared s)) (order_id ev) = Some out \<longrightarrow>
            (\<exists>s'. step decide (Charge i) s = Some s' \<and>
                  stripe (shared s') = stripe (shared s) \<and> charged s' = charged s \<and>
                  procs s' ! i =
                    (ev, case out of
                           Inl message \<Rightarrow> Returned \<lparr>statusCode = 500, body = message\<rparr>
                         | Inr charge \<Rightarrow> AtUpdate charge)))"
proof (intro conjI allI impI)
  from assms(1) have "charged_ok s0" by (simp add: charged_ok_def)
  from run_inv [OF this assms(2)] have "distinct (charged s)"
    by (simp add: charged_ok_def)
  then show "count_list (charged s) oid \<le> 1" by (rule distinct_count_list)
next
  from assms(1) have "map idempotencyKey (ledger (stripe (shared s0))) =
      map idempotencyKey (ledger (stripe (shared s0))) @ charged s0" by simp
  from run_ledger [OF this assms(2)]
  show "map idempotencyKey (ledger (stripe (shared s))) =
           map idempotencyKey (ledger (stripe (shared s0))) @ charged s" .
next
  fix i ev out
  assume "i < length (procs s)" "procs s ! i = (ev, AtCharge)"
    "outcomes (stripe (shared s)) (order_id ev) = Some out"
  then show "\<exists>s'. step decide (Charge i) s = Some s' \<and>
                  stripe (shared s') = stripe (shared s) \<and> charged s' = charged s \<and>
                  procs s' ! i =
                    (ev, case out of
                           Inl message \<Rightarrow> Returned \<lparr>statusCode = 500, body = message\<rparr>
                         | Inr charge \<Rightarrow> AtUpdate charge)"
    by (rule reissue_returns_original)
qed

theorem charged_at_most_once_witness:
  "charged idle = [] \<and>
   run approving [Arrive abc_123, Check 0, Charge 0, Crash 0, Arrive abc_123, Check 1] idle
     = Some before_reissue \<and>
   count_list (charged before_reissue) ''abc-123'' \<le> 1 \<and>
   map idempotencyKey (ledger (stripe (shared before_reissue))) = [''abc-123''] \<and>
   outcomes (stripe (shared before_reissue)) (order_id abc_123) = Some (Inr receipt) \<and>
   (\<exists>s'. step approving (Charge 1) before_reissue = Some s' \<and>
         stripe (shared s') = stripe (shared before_reissue) \<and>
         charged s' = charged before_reissue \<and>
         procs s' ! 1 = (abc_123, AtUpdate receipt))"
proof -
  have a: "charged idle = []" by (simp add: idle_def)
  have b: "(1::nat) < length (procs before_reissue)"
    "procs before_reissue ! 1 = (abc_123, AtCharge)"
    "outcomes (stripe (shared before_reissue)) (order_id abc_123) = Some (Inr receipt)"
    by (simp_all add: before_reissue_def abc_123_def)
  have c: "ledger (stripe (shared idle)) = []" "charged before_reissue = [''abc-123'']"
    by (simp_all add: idle_def fresh_def before_reissue_def)
  from charged_at_most_once [OF a run_before_reissue, of "''abc-123''"] a b c run_before_reissue
  show ?thesis by auto
qed

section \<open>Properties of the order store and the scanner\<close>

lemma find_snoc:
  "find P (xs @ [x]) = (case find P xs of Some y \<Rightarrow> Some y | None \<Rightarrow> if P x then Some x else None)"
  by (induction xs) auto

text \<open>
  Claim C5. \<open>createIfAbsent\<close> inserts a record only when the store has none for the
  \<open>order_id\<close>: the record is \<open>PENDING\<close>, carries the arguments, and is what \<open>get\<close>
  then returns. When the store has a record for the \<open>order_id\<close>, that record is
  returned and the store is unchanged. No other order's record is touched, and a second
  \<open>createIfAbsent\<close> for the same \<open>order_id\<close>, with whatever arguments, returns the
  record of the first and leaves the store as the first left it.
\<close>

theorem createIfAbsent_inserts_once:
  "(get st oid = None \<longrightarrow>
      (\<exists>r. createIfAbsent now ttl oid uid amt fid aref st = (r, st @ [r]) \<and>
           status r = PENDING \<and> ord_id r = oid \<and> user_id r = uid \<and> ord_amount r = amt \<and>
           feature_id r = fid \<and> artifact_ref r = aref \<and> processor_receipt r = None \<and>
           get (st @ [r]) oid = Some r)) \<and>
   (\<forall>r. get st oid = Some r \<longrightarrow> createIfAbsent now ttl oid uid amt fid aref st = (r, st)) \<and>
   (\<forall>k. k \<noteq> oid \<longrightarrow> get (snd (createIfAbsent now ttl oid uid amt fid aref st)) k = get st k) \<and>
   createIfAbsent now' ttl' oid uid' amt' fid' aref'
       (snd (createIfAbsent now ttl oid uid amt fid aref st)) =
     createIfAbsent now ttl oid uid amt fid aref st"
  by (auto simp: createIfAbsent_def get_def find_snoc Let_def split: option.splits)

theorem createIfAbsent_inserts_once_witness:
  "get [] ''o1'' = None \<and>
   createIfAbsent 100 2592000 ''o1'' ''u1'' 500 ''A'' ''art-1'' [] = (order_o1, [order_o1]) \<and>
   get [order_o1] ''o1'' = Some order_o1 \<and>
   createIfAbsent 200 2592000 ''o1'' ''u2'' 100 ''B'' ''art-2'' [order_o1] = (order_o1, [order_o1]) \<and>
   get [order_o1] ''o2'' = None"
proof -
  have a: "get [] ''o1'' = None" by (simp add: get_def)
  have b: "get [order_o1] ''o1'' = Some order_o1" "get [order_o1] ''o2'' = None"
    by (simp_all add: get_def order_o1_def)
  have c: "createIfAbsent 100 2592000 ''o1'' ''u1'' 500 ''A'' ''art-1'' [] = (order_o1, [order_o1])"
    by (simp add: createIfAbsent_def get_def order_o1_def Let_def)
  from createIfAbsent_inserts_once
         [where st = "[order_o1]" and oid = "''o1''" and now = 200 and ttl = 2592000
            and uid = "''u2''" and amt = 100 and fid = "''B''" and aref = "''art-2''"] b
  have d: "createIfAbsent 200 2592000 ''o1'' ''u2'' 100 ''B'' ''art-2'' [order_o1]
          = (order_o1, [order_o1])"
    by blast
  from createIfAbsent_inserts_once
         [where st = "[]" and oid = "''o1''" and now = 100 and ttl = 2592000
            and uid = "''u1''" and amt = 500 and fid = "''A''" and aref = "''art-1''"] a c
  have "get [order_o1] ''o1'' = Some order_o1"
    by auto
  with a b c d show ?thesis by simp
qed

text \<open>
  Claim C7. A scan reports exactly the records of the store whose status is \<open>PENDING\<close>
  or \<open>CHARGING\<close> and whose \<open>updated_at\<close> is older than the abandonment threshold,
  in the order of the store, and hands the store back unchanged.
\<close>

theorem scan_read_only:
  "set (fst (scan threshold now st)) =
     {r \<in> set st. (status r = PENDING \<or> status r = CHARGING) \<and> updated_at r + threshold < now} \<and>
   fst (scan threshold now st) = filter (at_risk threshold now) st \<and>
   snd (scan threshold now st) = st"
proof -
  have "scan_records threshold now st = filter (at_risk threshold now) st"
    by (induction st) simp_all
  then show ?thesis by (auto simp: scan_def at_risk_def)
qed

end
